theory Spec2Isabelle
  imports Complex_Main
begin

section \<open>pytool.lang: the UNSET sentinel\<close>

text \<open>
  The repository is Python 2 code (\<^verbatim>\<open>__nonzero__\<close>, \<^verbatim>\<open>next\<close>, \<^verbatim>\<open>__metaclass__\<close>).
  The values that can stand on the right of \<^verbatim>\<open>UNSET == v\<close> are modelled by a datatype of
  Python values: the built-in constants and containers, the class \<^verbatim>\<open>UNSET\<close> itself, and
  an instance of a user-defined class, which carries what its \<^verbatim>\<open>__nonzero__\<close> and
  \<^verbatim>\<open>__len__\<close> methods return when the class defines them.
\<close>

datatype pyval =
    PNone
  | PBool bool
  | PInt int
  | PStr string
  | PList "pyval list"
  | PTuple "pyval list"
  | PDict "(pyval \<times> pyval) list"
  | PUnset
  | PInstance "bool option" "nat option"

datatype stop = StopIteration

datatype pyerr = TypeError | ValueError | OverflowError | AttributeError | Raised string

text \<open>\<^verbatim>\<open>_UNSETMeta.__nonzero__\<close>, \<^verbatim>\<open>__len__\<close>, \<^verbatim>\<open>__iter__\<close> and \<^verbatim>\<open>next\<close>; the argument
  \<open>cls\<close> is the class the metaclass method is called on.\<close>

definition unset_nonzero :: "pyval \<Rightarrow> bool" where
  "unset_nonzero cls = False"

definition unset_len :: "pyval \<Rightarrow> int" where
  "unset_len cls = 0"

definition unset_iter :: "pyval \<Rightarrow> pyval" where
  "unset_iter cls = cls"

definition unset_next :: "pyval \<Rightarrow> stop + pyval \<times> pyval" where
  "unset_next cls = Inl StopIteration"

text \<open>Python 2 truth testing (\<^verbatim>\<open>bool(v)\<close>, \<^verbatim>\<open>not v\<close>): \<^verbatim>\<open>__nonzero__\<close> when the type has
  it, else \<^verbatim>\<open>__len__\<close>, else true. For the class \<^verbatim>\<open>UNSET\<close> the type is the metaclass.\<close>

fun truthy :: "pyval \<Rightarrow> bool" where
  "truthy PNone = False"
| "truthy (PBool b) = b"
| "truthy (PInt i) = (i \<noteq> 0)"
| "truthy (PStr s) = (s \<noteq> [])"
| "truthy (PList xs) = (xs \<noteq> [])"
| "truthy (PTuple xs) = (xs \<noteq> [])"
| "truthy (PDict kvs) = (kvs \<noteq> [])"
| "truthy PUnset = unset_nonzero PUnset"
| "truthy (PInstance (Some b) len) = b"
| "truthy (PInstance None (Some n)) = (n \<noteq> 0)"
| "truthy (PInstance None None) = True"

text \<open>\<^verbatim>\<open>_UNSETMeta.__eq__\<close>: identity first, then the truth value of the other operand.\<close>

definition unset_eq :: "pyval \<Rightarrow> pyval \<Rightarrow> bool" where
  "unset_eq cls other =
     (if cls = other then True
      else if \<not> truthy other then True
      else False)"

text \<open>The iteration protocol of Python 2. \<^verbatim>\<open>iter(x)\<close> calls \<^verbatim>\<open>__iter__\<close> of the type of
  \<open>x\<close> and raises \<^verbatim>\<open>TypeError\<close> unless the type of what it returns has a \<^verbatim>\<open>next\<close> method.
  Among the values modelled only the class \<^verbatim>\<open>UNSET\<close> has one, from its metaclass.\<close>

fun type_next :: "pyval \<Rightarrow> (pyval \<Rightarrow> stop + pyval \<times> pyval) option" where
  "type_next PUnset = Some unset_next"
| "type_next v = None"

definition iter_unset :: "pyval \<Rightarrow> pyerr + pyval" where
  "iter_unset cls =
     (let it = unset_iter cls in
      case type_next it of
        None \<Rightarrow> Inl TypeError
      | Some nxt \<Rightarrow> Inr it)"

text \<open>\<^verbatim>\<open>list(x)\<close> and a \<^verbatim>\<open>for\<close> loop then call \<^verbatim>\<open>next\<close> of the type of the iterator until
  it raises \<^verbatim>\<open>StopIteration\<close>. A call of \<^verbatim>\<open>next\<close> that returns gives the element and the
  iterator as the call left it. An iterator that never stops makes the loop run forever,
  which is the value \<open>None\<close>.\<close>

partial_function (option) drain :: "pyval \<Rightarrow> (pyerr + pyval list) option" where
  "drain it =
     (case type_next it of
        None \<Rightarrow> Some (Inl TypeError)
      | Some nxt \<Rightarrow>
          (case nxt it of
             Inl StopIteration \<Rightarrow> Some (Inr [])
           | Inr (x, it') \<Rightarrow> Option.bind (drain it') (\<lambda>r. Some (map_sum id ((#) x) r))))"

text \<open>\<^verbatim>\<open>list(cls)\<close> for the class \<^verbatim>\<open>UNSET\<close>.\<close>

definition unset_list :: "pyval \<Rightarrow> (pyerr + pyval list) option" where
  "unset_list cls =
     (case iter_unset cls of
        Inl e \<Rightarrow> Some (Inl e)
      | Inr it \<Rightarrow> drain it)"

text \<open>\<open>n\<close> iterations of the class one after the other, and what each one gives.\<close>

fun unset_iterations :: "nat \<Rightarrow> pyval \<Rightarrow> (pyerr + pyval list) option list" where
  "unset_iterations 0 cls = []"
| "unset_iterations (Suc n) cls = unset_list cls # unset_iterations n cls"

section \<open>pytool.lang: the singleton decorator\<close>

text \<open>
  \<^verbatim>\<open>singleton(klass)\<close> builds a new class whose dictionary holds \<^verbatim>\<open>_singleton\<close>, first
  \<^verbatim>\<open>None\<close>, and the \<^verbatim>\<open>__new__\<close> below. The wrapped class is a parameter: its
  construction logic maps the arguments of the call to an exception or to the state of
  the new instance, and \<open>nonzero\<close> is the truth value Python gives an instance in that
  state. A value is \<^verbatim>\<open>None\<close> or an object; an object has an identity, and \<^verbatim>\<open>a is b\<close>
  compares identities. The world records the next free identity, the arguments of every
  run of the wrapped class's construction logic, and the slot \<^verbatim>\<open>cls._singleton\<close>.
\<close>

datatype 's pyref = NoneVal | Obj nat 's

record ('a, 's) klass =
  construct :: "'a \<Rightarrow> pyerr + 's"
  nonzero :: "'s \<Rightarrow> bool"

record ('a, 's) world =
  next_ident :: nat
  constructed :: "'a list"
  singleton_slot :: "'s pyref"

text \<open>\<^verbatim>\<open>bool(v)\<close> for a value that is \<^verbatim>\<open>None\<close> or an instance of the wrapped class.\<close>

fun ref_truthy :: "('a, 's) klass \<Rightarrow> 's pyref \<Rightarrow> bool" where
  "ref_truthy k NoneVal = False"
| "ref_truthy k (Obj i s) = nonzero k s"

text \<open>\<^verbatim>\<open>klass(*args, **kwargs)\<close>: the construction logic runs (and is recorded); when it
  does not raise, the call returns a new object.\<close>

definition klass_call ::
  "('a, 's) klass \<Rightarrow> ('a, 's) world \<Rightarrow> 'a \<Rightarrow> (pyerr + 's pyref) \<times> ('a, 's) world" where
  "klass_call k w args =
     (let w1 = w\<lparr>constructed := constructed w @ [args]\<rparr> in
      case construct k args of
        Inl e \<Rightarrow> (Inl e, w1)
      | Inr s \<Rightarrow> (Inr (Obj (next_ident w1) s), w1\<lparr>next_ident := Suc (next_ident w1)\<rparr>))"

text \<open>The \<^verbatim>\<open>__new__\<close> of the class that \<^verbatim>\<open>singleton\<close> returns. The object it returns is
  not an instance of the new class, so Python runs no \<^verbatim>\<open>__init__\<close> after it.\<close>

definition singleton_new ::
  "('a, 's) klass \<Rightarrow> ('a, 's) world \<Rightarrow> 'a \<Rightarrow> (pyerr + 's pyref) \<times> ('a, 's) world" where
  "singleton_new k w args =
     (if \<not> ref_truthy k (singleton_slot w) then
        (case klass_call k w args of
           (Inl e, w') \<Rightarrow> (Inl e, w')
         | (Inr v, w') \<Rightarrow> (Inr v, w'\<lparr>singleton_slot := v\<rparr>))
      else (Inr (singleton_slot w), w))"

text \<open>The world right after \<^verbatim>\<open>singleton(klass)\<close> has built the new class.\<close>

definition fresh_world :: "('a, 's) world" where
  "fresh_world = \<lparr>next_ident = 0, constructed = [], singleton_slot = NoneVal\<rparr>"

text \<open>Two wrapped classes to run the model on: \<^verbatim>\<open>list\<close>, whose instances are false when
  empty, and a class that keeps its argument, raises on a negative one, and whose
  instances are always true.\<close>

definition list_klass :: "(int list, int list) klass" where
  "list_klass = \<lparr>construct = (\<lambda>args. Inr args), nonzero = (\<lambda>s. s \<noteq> [])\<rparr>"

definition box_klass :: "(int, int) klass" where
  "box_klass =
     \<lparr>construct = (\<lambda>n. if n < 0 then Inl (Raised ''negative'') else Inr n),
      nonzero = (\<lambda>s. True)\<rparr>"

section \<open>pytool.lang: classproperty\<close>

text \<open>
  \<^verbatim>\<open>classproperty(func)\<close> returns an instance of a new type whose only method is
  \<^verbatim>\<open>__get__(self, instance, owner)\<close>: a non-data descriptor. The decorated function may
  read and change the program's state \<open>'w\<close> and may raise. A class has its dictionary of
  members and its ancestors in method resolution order; an instance has its class and its
  own attribute dictionary.
\<close>

record ('c, 'v) pyinstance =
  inst_class :: 'c
  inst_dict :: "string \<rightharpoonup> 'v"

datatype ('c, 'w, 'v) member =
    Plain 'v
  | NonDataDescriptor "('c, 'v) pyinstance option \<Rightarrow> 'c \<Rightarrow> 'w \<Rightarrow> (pyerr + 'v) \<times> 'w"

definition classproperty ::
  "('c \<Rightarrow> 'w \<Rightarrow> (pyerr + 'v) \<times> 'w) \<Rightarrow> ('c, 'w, 'v) member" where
  "classproperty func = NonDataDescriptor (\<lambda>inst owner. func owner)"

text \<open>The lookup of a name along a method resolution order: the first class whose
  dictionary binds the name decides.\<close>

fun mro_lookup ::
  "('c \<Rightarrow> string \<rightharpoonup> ('c, 'w, 'v) member) \<Rightarrow> 'c list \<Rightarrow> string \<Rightarrow> ('c, 'w, 'v) member option" where
  "mro_lookup tbl [] name = None"
| "mro_lookup tbl (c # cs) name =
     (case tbl c name of
        Some m \<Rightarrow> Some m
      | None \<Rightarrow> mro_lookup tbl cs name)"

text \<open>Attribute reads, as Python's \<^verbatim>\<open>type.__getattribute__\<close> and
  \<^verbatim>\<open>object.__getattribute__\<close> do them for members without \<^verbatim>\<open>__set__\<close>. The method
  resolution order of a class is the class itself, then its ancestors. A read from a
  class calls \<^verbatim>\<open>__get__(None, cls)\<close> with the class the read is made on; a read from an
  instance looks into the instance's own dictionary first and calls
  \<^verbatim>\<open>__get__(instance, type(instance))\<close> otherwise.\<close>

definition getattr_class ::
  "('c \<Rightarrow> string \<rightharpoonup> ('c, 'w, 'v) member) \<Rightarrow> ('c \<Rightarrow> 'c list) \<Rightarrow> 'c \<Rightarrow> string \<Rightarrow> 'w
     \<Rightarrow> (pyerr + 'v) \<times> 'w" where
  "getattr_class tbl ancestors c name w =
     (case mro_lookup tbl (c # ancestors c) name of
        None \<Rightarrow> (Inl AttributeError, w)
      | Some (Plain v) \<Rightarrow> (Inr v, w)
      | Some (NonDataDescriptor g) \<Rightarrow> g None c w)"

definition getattr_instance ::
  "('c \<Rightarrow> string \<rightharpoonup> ('c, 'w, 'v) member) \<Rightarrow> ('c \<Rightarrow> 'c list) \<Rightarrow> ('c, 'v) pyinstance \<Rightarrow> string
     \<Rightarrow> 'w \<Rightarrow> (pyerr + 'v) \<times> 'w" where
  "getattr_instance tbl ancestors obj name w =
     (case inst_dict obj name of
        Some v \<Rightarrow> (Inr v, w)
      | None \<Rightarrow>
          (case mro_lookup tbl (inst_class obj # ancestors (inst_class obj)) name of
             None \<Rightarrow> (Inl AttributeError, w)
           | Some (Plain v) \<Rightarrow> (Inr v, w)
           | Some (NonDataDescriptor g) \<Rightarrow> g (Some obj) (inst_class obj) w))"

text \<open>A class \<^verbatim>\<open>MyClass\<close> with one classproperty \<^verbatim>\<open>attr\<close> and a subclass \<^verbatim>\<open>SubClass\<close> with
  an empty dictionary. The state counts the calls of the decorated function, which
  returns the count, plus 100 when it is called with the subclass.\<close>

datatype cname = MyClass | SubClass

fun counting :: "cname \<Rightarrow> nat \<Rightarrow> (pyerr + int) \<times> nat" where
  "counting MyClass w = (Inr (int w), Suc w)"
| "counting SubClass w = (Inr (100 + int w), Suc w)"

fun my_table :: "cname \<Rightarrow> string \<rightharpoonup> (cname, nat, int) member" where
  "my_table MyClass = [''attr'' \<mapsto> classproperty counting]"
| "my_table SubClass = Map.empty"

fun my_ancestors :: "cname \<Rightarrow> cname list" where
  "my_ancestors MyClass = []"
| "my_ancestors SubClass = [MyClass]"

section \<open>The standard library's dates and times\<close>

text \<open>
  \<^verbatim>\<open>pytool.time\<close> works on the standard library's \<^verbatim>\<open>datetime\<close> and \<^verbatim>\<open>timedelta\<close>. A
  datetime is its fields; the only tzinfo class at hand is the repository's \<^verbatim>\<open>UTC\<close>. The
  arithmetic follows the library's own algorithms (proleptic Gregorian ordinals, day 1
  being 0001-01-01), with every range check of the constructors kept as an error.
\<close>

datatype tzinfo = UTC

record datetime =
  year :: int
  month :: int
  day :: int
  hour :: int
  minute :: int
  second :: int
  microsecond :: int
  tzinfo :: "tzinfo option"

record timedelta =
  days :: int
  seconds :: int
  microseconds :: int

definition MAXORDINAL :: int where
  "MAXORDINAL = 3652059"

definition days_in_month_table :: "int list" where
  "days_in_month_table = [0, 31, 28, 31, 30, 31, 30, 31, 31, 30, 31, 30, 31]"

definition days_before_month_table :: "int list" where
  "days_before_month_table = [0, 0, 31, 59, 90, 120, 151, 181, 212, 243, 273, 304, 334]"

definition is_leap :: "int \<Rightarrow> bool" where
  "is_leap y \<longleftrightarrow> y mod 4 = 0 \<and> (y mod 100 \<noteq> 0 \<or> y mod 400 = 0)"

definition days_in_month :: "int \<Rightarrow> int \<Rightarrow> int" where
  "days_in_month y m = (if m = 2 \<and> is_leap y then 29 else days_in_month_table ! nat m)"

definition days_before_month :: "int \<Rightarrow> int \<Rightarrow> int" where
  "days_before_month y m =
     days_before_month_table ! nat m + (if m > 2 \<and> is_leap y then 1 else 0)"

definition days_before_year :: "int \<Rightarrow> int" where
  "days_before_year y' =
     (let y = y' - 1 in
      if y \<ge> 0 then y * 365 + y div 4 - y div 100 + y div 400 else - 366)"

definition ymd_to_ord :: "int \<Rightarrow> int \<Rightarrow> int \<Rightarrow> int" where
  "ymd_to_ord y m d = days_before_year y + days_before_month y m + d"

text \<open>The library's \<^verbatim>\<open>ord_to_ymd\<close>: 400-, 100-, 4- and 1-year cycles, then an estimate of
  the month (\<^verbatim>\<open>(n + 50) >> 5\<close>) that is corrected when it is one too large.\<close>

definition ord_to_ymd :: "int \<Rightarrow> int \<times> int \<times> int" where
  "ord_to_ymd ordinal =
     (let n0 = ordinal - 1;
          n400 = n0 div 146097; r400 = n0 mod 146097;
          n100 = r400 div 36524; r100 = r400 mod 36524;
          n4 = r100 div 1461; r4 = r100 mod 1461;
          n1 = r4 div 365; n = r4 mod 365;
          y = n400 * 400 + 1 + n100 * 100 + n4 * 4 + n1
      in if n1 = 4 \<or> n100 = 4 then (y - 1, 12, 31)
         else
           (let leapyear = (n1 = 3 \<and> (n4 \<noteq> 24 \<or> n100 = 3));
                m = (n + 50) div 32;
                preceding = days_before_month_table ! nat m + (if m > 2 \<and> leapyear then 1 else 0)
            in if preceding > n
               then (y, m - 1, n - (preceding - days_in_month y (m - 1)) + 1)
               else (y, m, n - preceding + 1)))"

text \<open>The constructor \<^verbatim>\<open>datetime(year, month, day, hour, minute, second, microsecond,
  tzinfo)\<close> with its range checks.\<close>

definition datetime_new ::
  "int \<Rightarrow> int \<Rightarrow> int \<Rightarrow> int \<Rightarrow> int \<Rightarrow> int \<Rightarrow> int \<Rightarrow> tzinfo option \<Rightarrow> pyerr + datetime" where
  "datetime_new y m d hh mm ss us tz =
     (if y < 1 \<or> y > 9999 then Inl ValueError
      else if m < 1 \<or> m > 12 then Inl ValueError
      else if d < 1 \<or> d > days_in_month y m then Inl ValueError
      else if hh < 0 \<or> hh > 23 then Inl ValueError
      else if mm < 0 \<or> mm > 59 then Inl ValueError
      else if ss < 0 \<or> ss > 59 then Inl ValueError
      else if us < 0 \<or> us > 999999 then Inl ValueError
      else Inr \<lparr>year = y, month = m, day = d, hour = hh, minute = mm, second = ss,
                microsecond = us, tzinfo = tz\<rparr>)"

text \<open>The datetimes that exist in a Python program: those the constructor accepts.\<close>

definition valid_datetime :: "datetime \<Rightarrow> bool" where
  "valid_datetime t \<longleftrightarrow>
     1 \<le> year t \<and> year t \<le> 9999 \<and> 1 \<le> month t \<and> month t \<le> 12
     \<and> 1 \<le> day t \<and> day t \<le> days_in_month (year t) (month t)
     \<and> 0 \<le> hour t \<and> hour t \<le> 23 \<and> 0 \<le> minute t \<and> minute t \<le> 59
     \<and> 0 \<le> second t \<and> second t \<le> 59 \<and> 0 \<le> microsecond t \<and> microsecond t \<le> 999999"

definition toordinal :: "datetime \<Rightarrow> int" where
  "toordinal t = ymd_to_ord (year t) (month t) (day t)"

definition weekday :: "datetime \<Rightarrow> int" where
  "weekday t = (toordinal t + 6) mod 7"

definition datetime_fromordinal :: "int \<Rightarrow> pyerr + datetime" where
  "datetime_fromordinal n =
     (if n < 1 then Inl ValueError
      else case ord_to_ymd n of (y, m, d) \<Rightarrow> datetime_new y m d 0 0 0 0 None)"

text \<open>\<^verbatim>\<open>timedelta(days, seconds, microseconds)\<close> normalises its fields and refuses more
  than 999999999 days.\<close>

definition timedelta_new :: "int \<Rightarrow> int \<Rightarrow> int \<Rightarrow> pyerr + timedelta" where
  "timedelta_new d s us =
     (let s1 = s + us div 1000000;
          d1 = d + s1 div 86400
      in if \<bar>d1\<bar> > 999999999 then Inl OverflowError
         else Inr \<lparr>days = d1, seconds = s1 mod 86400, microseconds = us mod 1000000\<rparr>)"

definition timedelta_add :: "timedelta \<Rightarrow> timedelta \<Rightarrow> pyerr + timedelta" where
  "timedelta_add a b =
     timedelta_new (days a + days b) (seconds a + seconds b) (microseconds a + microseconds b)"

definition timedelta_neg :: "timedelta \<Rightarrow> pyerr + timedelta" where
  "timedelta_neg a = timedelta_new (- days a) (- seconds a) (- microseconds a)"

text \<open>\<^verbatim>\<open>datetime + timedelta\<close>: through the ordinal of the date and the seconds of the
  day; \<^verbatim>\<open>OverflowError\<close> when the day leaves the years 1 to 9999. The tzinfo is kept.\<close>

definition datetime_add :: "datetime \<Rightarrow> timedelta \<Rightarrow> pyerr + datetime" where
  "datetime_add t other =
     (case timedelta_new (toordinal t) (hour t * 3600 + minute t * 60 + second t) (microsecond t) of
        Inl e \<Rightarrow> Inl e
      | Inr own \<Rightarrow>
          (case timedelta_add own other of
             Inl e \<Rightarrow> Inl e
           | Inr delta \<Rightarrow>
               if 0 < days delta \<and> days delta \<le> MAXORDINAL then
                 (case ord_to_ymd (days delta) of
                    (y, m, d) \<Rightarrow>
                      datetime_new y m d (seconds delta div 3600) (seconds delta mod 3600 div 60)
                        (seconds delta mod 3600 mod 60) (microseconds delta) (tzinfo t))
               else Inl OverflowError))"

definition datetime_sub_timedelta :: "datetime \<Rightarrow> timedelta \<Rightarrow> pyerr + datetime" where
  "datetime_sub_timedelta t other =
     (case timedelta_neg other of Inl e \<Rightarrow> Inl e | Inr n \<Rightarrow> datetime_add t n)"

text \<open>\<^verbatim>\<open>tzinfo.utcoffset\<close> in minutes; \<^verbatim>\<open>UTC.utcoffset\<close> returns \<^verbatim>\<open>timedelta(0)\<close>. A datetime
  without tzinfo is naive.\<close>

fun utcoffset :: "tzinfo option \<Rightarrow> int option" where
  "utcoffset None = None"
| "utcoffset (Some UTC) = Some 0"

text \<open>\<^verbatim>\<open>datetime - datetime\<close>: \<^verbatim>\<open>TypeError\<close> when one operand is naive and the other aware.\<close>

definition datetime_sub :: "datetime \<Rightarrow> datetime \<Rightarrow> pyerr + timedelta" where
  "datetime_sub a b =
     (case (utcoffset (tzinfo a), utcoffset (tzinfo b)) of
        (None, None) \<Rightarrow>
          timedelta_new (toordinal a - toordinal b)
            ((hour a - hour b) * 3600 + (minute a - minute b) * 60 + (second a - second b))
            (microsecond a - microsecond b)
      | (Some off1, Some off2) \<Rightarrow>
          timedelta_new (toordinal a - toordinal b)
            ((hour a - hour b) * 3600 + (minute a - minute b) * 60 + (second a - second b)
              + (off2 - off1) * 60)
            (microsecond a - microsecond b)
      | _ \<Rightarrow> Inl TypeError)"

text \<open>\<^verbatim>\<open>timedelta.total_seconds()\<close> is a float: the microseconds divided by \<open>10^6\<close>. Floats
  are modelled by the rationals they stand for. \<^verbatim>\<open>int(x)\<close> truncates towards zero and
  Python 2's \<^verbatim>\<open>round(x)\<close> rounds halves away from zero. For the differences that
  \<open>week_seconds\<close> takes (less than a week, in whole microseconds) the float is within
  \<open>10^-10\<close> of the quotient and a quotient that is not whole is at least \<open>10^-6\<close> away
  from the next integer, so \<^verbatim>\<open>int\<close> of the float is \<^verbatim>\<open>int\<close> of the quotient.\<close>

definition total_seconds :: "timedelta \<Rightarrow> rat" where
  "total_seconds td =
     of_int (microseconds td + (seconds td + days td * 24 * 3600) * 1000000) / 1000000"

definition py_int :: "rat \<Rightarrow> int" where
  "py_int x = (if x \<ge> 0 then \<lfloor>x\<rfloor> else \<lceil>x\<rceil>)"

definition py_round :: "rat \<Rightarrow> rat" where
  "py_round x = (if x \<ge> 0 then of_int \<lfloor>x + 1 / 2\<rfloor> else of_int \<lceil>x - 1 / 2\<rceil>)"

section \<open>pytool.time\<close>

text \<open>\<^verbatim>\<open>timestamp.date().timetuple()\<close>: year, month, day, three zeros, the weekday, the day
  of the year and \<open>-1\<close>.\<close>

definition date_timetuple :: "datetime \<Rightarrow> int list" where
  "date_timetuple t =
     [year t, month t, day t, 0, 0, 0, weekday t,
      days_before_month (year t) (month t) + day t, - 1]"

definition trim_time :: "datetime \<Rightarrow> pyerr + datetime" where
  "trim_time timestamp =
     (case take (length (date_timetuple timestamp) - 3) (date_timetuple timestamp) of
        [y, m, d, hh, mm, ss] \<Rightarrow> datetime_new y m d hh mm ss 0 (tzinfo timestamp)
      | _ \<Rightarrow> Inl TypeError)"

definition week_start :: "datetime \<Rightarrow> pyerr + datetime" where
  "week_start timestamp =
     (case timedelta_new (weekday timestamp) 0 0 of
        Inl e \<Rightarrow> Inl e
      | Inr wd \<Rightarrow>
          (case datetime_sub_timedelta timestamp wd of
             Inl e \<Rightarrow> Inl e
           | Inr t \<Rightarrow> datetime_fromordinal (toordinal t)))"

definition week_seconds :: "datetime \<Rightarrow> pyerr + int" where
  "week_seconds timestamp =
     (case week_start timestamp of
        Inl e \<Rightarrow> Inl e
      | Inr ws \<Rightarrow>
          (case datetime_sub timestamp ws of
             Inl e \<Rightarrow> Inl e
           | Inr difference \<Rightarrow> Inr (py_int (total_seconds difference))))"

text \<open>\<^verbatim>\<open>week_seconds_to_datetime\<close> reads the clock: \<open>now\<close> is what \<^verbatim>\<open>datetime.datetime.now()\<close>
  returns, a naive datetime.\<close>

definition week_seconds_to_datetime :: "datetime \<Rightarrow> int \<Rightarrow> pyerr + datetime" where
  "week_seconds_to_datetime now secs =
     (case week_start now of
        Inl e \<Rightarrow> Inl e
      | Inr ws \<Rightarrow>
          (case timedelta_new 0 secs 0 of
             Inl e \<Rightarrow> Inl e
           | Inr td \<Rightarrow> datetime_add ws td))"

text \<open>\<^verbatim>\<open>stamp.utctimetuple()\<close> subtracts the UTC offset, which is zero for \<^verbatim>\<open>UTC\<close>, and
  drops the microseconds.\<close>

definition utctimetuple :: "datetime \<Rightarrow> int \<times> int \<times> int \<times> int \<times> int \<times> int" where
  "utctimetuple t = (year t, month t, day t, hour t, minute t, second t)"

text \<open>\<^verbatim>\<open>calendar.timegm\<close>: the days since 1970-01-01 (ordinal 719163), from the ordinal of
  January 1st (\<^verbatim>\<open>datetime.date(year, 1, 1)\<close> checks the year), the lengths of the months
  before and the leap day; then hours, minutes and seconds.\<close>

definition timegm :: "int \<times> int \<times> int \<times> int \<times> int \<times> int \<Rightarrow> pyerr + int" where
  "timegm tuple =
     (case tuple of
        (y, m, d, hh, mm, ss) \<Rightarrow>
          if y < 1 \<or> y > 9999 then Inl ValueError
          else
            (let days0 = ymd_to_ord y 1 1 - 719163;
                 days1 = days0 + sum_list (map (\<lambda>i. days_in_month_table ! nat i) [1..m - 1]);
                 days2 = (if m > 2 \<and> is_leap y then days1 + 1 else days1);
                 days3 = days2 + d - 1;
                 hours = days3 * 24 + hh;
                 minutes = hours * 60 + mm
             in Inr (minutes * 60 + ss)))"

text \<open>\<^verbatim>\<open>toutctimestamp\<close>. The result is a float, modelled by the rational it stands for:
  the code rounds the quotient and the sum to doubles where the model keeps them exact.
  The two agree wherever the exact values are doubles, as for 1969-12-31 23:59:59.5 below,
  and differ elsewhere (at 9999-12-31 23:59:59.999999 the code gives 253402300800.0).
  For a naive datetime the code asks \<^verbatim>\<open>time.mktime\<close>, which depends on the local time zone
  and is a parameter here.\<close>

definition toutctimestamp :: "(datetime \<Rightarrow> rat) \<Rightarrow> datetime \<Rightarrow> pyerr + rat" where
  "toutctimestamp mktime stamp =
     (let decimal = of_int (1 * microsecond stamp) / 1000000 in
      if tzinfo stamp \<noteq> None then
        (case timegm (utctimetuple stamp) of
           Inl e \<Rightarrow> Inl e
         | Inr s \<Rightarrow> Inr (of_int s + decimal))
      else Inr (mktime stamp + decimal))"

text \<open>\<^verbatim>\<open>time.gmtime\<close>: Python 2 truncates the float to whole seconds towards zero; the
  last component is \<^verbatim>\<open>tm_isdst\<close>, always 0 for UTC. Before year 1 the platform returns a
  year that the datetime constructor refuses with \<^verbatim>\<open>ValueError\<close>; the model raises it here.\<close>

definition gmtime :: "rat \<Rightarrow> pyerr + int \<times> int \<times> int \<times> int \<times> int \<times> int \<times> int" where
  "gmtime x =
     (let secs = py_int x;
          ordinal = 719163 + secs div 86400;
          r = secs mod 86400
      in if ordinal < 1 then Inl ValueError
         else case ord_to_ymd ordinal of
                (y, m, d) \<Rightarrow> Inr (y, m, d, r div 3600, r mod 3600 div 60, r mod 60, 0))"

text \<open>\<^verbatim>\<open>fromutctimestamp\<close>.\<close>

definition fromutctimestamp :: "rat \<Rightarrow> pyerr + datetime" where
  "fromutctimestamp stamp =
     (let decimal = py_int (py_round (1000000 * (stamp - of_int (py_int stamp)))) in
      case gmtime stamp of
        Inl e \<Rightarrow> Inl e
      | Inr (y, m, d, hh, mm, ss, isdst) \<Rightarrow>
          (case datetime_new y m d hh mm ss decimal (Some UTC) of
             Inl e \<Rightarrow> Inl e
           | Inr new_stamp \<Rightarrow>
               if isdst \<noteq> 0 then
                 (case timedelta_new 0 3600 0 of
                    Inl e \<Rightarrow> Inl e
                  | Inr h \<Rightarrow> datetime_sub_timedelta new_stamp h)
               else Inr new_stamp))"

text \<open>Two datetimes to run the model on: Thursday 2024-03-14 13:05:09.000077, naive and
  with \<^verbatim>\<open>tzinfo=UTC()\<close>.\<close>

definition thursday :: datetime where
  "thursday = \<lparr>year = 2024, month = 3, day = 14, hour = 13, minute = 5, second = 9,
     microsecond = 77, tzinfo = None\<rparr>"

definition thursday_utc :: datetime where
  "thursday_utc = thursday\<lparr>tzinfo := Some UTC\<rparr>"

text \<open>A clock reading in another week, Wednesday 2024-05-01 09:30; half a second before
  the epoch, in UTC; and the example of the specification, 2020-01-01 00:00 UTC.\<close>

definition mayday :: datetime where
  "mayday = \<lparr>year = 2024, month = 5, day = 1, hour = 9, minute = 30, second = 0,
     microsecond = 0, tzinfo = None\<rparr>"

definition new_years_eve :: datetime where
  "new_years_eve = \<lparr>year = 1969, month = 12, day = 31, hour = 23, minute = 59, second = 59,
     microsecond = 500000, tzinfo = Some UTC\<rparr>"

definition new_year_2020 :: datetime where
  "new_year_2020 = \<lparr>year = 2020, month = 1, day = 1, hour = 0, minute = 0, second = 0,
     microsecond = 0, tzinfo = Some UTC\<rparr>"

section \<open>Claims about the sentinel\<close>

text \<open>
  C4. \<^verbatim>\<open>UNSET == UNSET\<close> is true; \<^verbatim>\<open>UNSET == v\<close> is true for every false value \<open>v\<close> and
  false for every true value \<open>v\<close>.
\<close>

theorem unset_eq_falsy:
  "unset_eq PUnset PUnset \<and> (\<not> truthy v \<longrightarrow> unset_eq PUnset v)
   \<and> (truthy v \<longrightarrow> \<not> unset_eq PUnset v)"
  by (auto simp: unset_eq_def unset_nonzero_def)

theorem unset_eq_falsy_witness:
  "\<not> truthy PNone \<and> unset_eq PUnset PNone \<and> \<not> truthy (PBool False) \<and> unset_eq PUnset (PBool False)
   \<and> \<not> truthy (PInt 0) \<and> unset_eq PUnset (PInt 0) \<and> \<not> truthy (PStr []) \<and> unset_eq PUnset (PStr [])
   \<and> \<not> truthy (PList []) \<and> unset_eq PUnset (PList [])
   \<and> truthy (PInt 1) \<and> \<not> unset_eq PUnset (PInt 1)"
  using unset_eq_falsy [of PNone] unset_eq_falsy [of "PBool False"] unset_eq_falsy [of "PInt 0"]
    unset_eq_falsy [of "PStr []"] unset_eq_falsy [of "PList []"] unset_eq_falsy [of "PInt 1"]
  by simp


text \<open>
  C7. Boolean coercion of \<^verbatim>\<open>UNSET\<close> is false and its length is 0. \<^verbatim>\<open>iter(UNSET)\<close> is
  accepted and is \<^verbatim>\<open>UNSET\<close> itself, whose \<^verbatim>\<open>next\<close> raises \<^verbatim>\<open>StopIteration\<close> at once: iterating
  \<^verbatim>\<open>UNSET\<close> terminates and yields no elements, however many times it is iterated.
\<close>

theorem unset_bool_len_iter:
  "truthy PUnset = False \<and> unset_len PUnset = 0
   \<and> iter_unset PUnset = Inr PUnset \<and> unset_list PUnset = Some (Inr [])
   \<and> unset_iterations n PUnset = replicate n (Some (Inr []))"
proof -
  have i: "iter_unset PUnset = Inr PUnset"
    by (simp add: iter_unset_def unset_iter_def)
  have "drain PUnset = Some (Inr [])"
    by (subst drain.simps) (simp add: unset_next_def)
  then have l: "unset_list PUnset = Some (Inr [])"
    by (simp add: unset_list_def i)
  have "unset_iterations n PUnset = replicate n (Some (Inr []))"
    by (induction n) (simp_all add: l)
  then show ?thesis
    by (simp add: i l unset_nonzero_def unset_len_def)
qed

section \<open>Claims about the singleton decorator\<close>

lemma singleton_new_cached:
  "ref_truthy k (singleton_slot w) \<Longrightarrow> singleton_new k w args = (Inr (singleton_slot w), w)"
  by (simp add: singleton_new_def)

lemma singleton_new_builds:
  assumes "\<not> ref_truthy k (singleton_slot w)" and "construct k args = Inr s"
  shows "singleton_new k w args =
           (Inr (Obj (next_ident w) s),
            w\<lparr>constructed := constructed w @ [args], next_ident := Suc (next_ident w),
              singleton_slot := Obj (next_ident w) s\<rparr>)"
  using assms by (simp add: singleton_new_def klass_call_def)

lemma singleton_new_raises:
  assumes "\<not> ref_truthy k (singleton_slot w)" and "construct k args = Inl e"
  shows "singleton_new k w args = (Inl e, w\<lparr>constructed := constructed w @ [args]\<rparr>)"
  using assms by (simp add: singleton_new_def klass_call_def)

text \<open>When the instances of the wrapped class are true, the first call builds the
  instance from its arguments and every later call returns that same object without
  running the construction logic.\<close>

lemma singleton_truthy_instance_cached:
  assumes "singleton_slot w = NoneVal" and "construct k args = Inr s" and "nonzero k s"
    and "singleton_new k w args = (r, w')"
  shows "r = Inr (Obj (next_ident w) s) \<and> constructed w' = constructed w @ [args]
         \<and> singleton_new k w' args' = (r, w')"
proof -
  have "\<not> ref_truthy k (singleton_slot w)"
    using assms(1) by simp
  from singleton_new_builds [OF this assms(2)] assms(4)
  have r: "r = Inr (Obj (next_ident w) s)"
    and w': "w' = w\<lparr>constructed := constructed w @ [args], next_ident := Suc (next_ident w),
              singleton_slot := Obj (next_ident w) s\<rparr>"
    by simp_all
  have "ref_truthy k (singleton_slot w')"
    using assms(3) by (simp add: w')
  from singleton_new_cached [OF this] show ?thesis
    by (simp add: r w')
qed

text \<open>
  C1. The first call on a singleton-wrapped class builds the instance; every later call
  returns the identically-same object and does not run the construction logic again.
  The code tests the slot with \<^verbatim>\<open>not cls._singleton\<close>, so it does this only while the
  cached instance is true: with \<^verbatim>\<open>list\<close> wrapped, the call \<^verbatim>\<open>S()\<close> caches an empty list
  and the call \<^verbatim>\<open>S([1])\<close> after it runs \<^verbatim>\<open>list\<close> again and returns another object.
\<close>

theorem singleton_falsy_instance_rebuilt:
  "singleton_new list_klass fresh_world [] =
     (Inr (Obj 0 []), \<lparr>next_ident = 1, constructed = [[]], singleton_slot = Obj 0 []\<rparr>)
   \<and> singleton_new list_klass \<lparr>next_ident = 1, constructed = [[]], singleton_slot = Obj 0 []\<rparr> [1] =
     (Inr (Obj 1 [1]), \<lparr>next_ident = 2, constructed = [[], [1]], singleton_slot = Obj 1 [1]\<rparr>)"
  by (simp add: singleton_new_def klass_call_def list_klass_def fresh_world_def)

text \<open>
  C5. When the construction logic of the wrapped class raises on a construction call, the
  exception reaches the caller, the slot is left as it was (empty when it was empty), and
  the next construction call runs the construction logic again.
\<close>

theorem singleton_failure_retries:
  assumes "\<not> ref_truthy k (singleton_slot w)" and "construct k args = Inl e"
  shows "fst (singleton_new k w args) = Inl e
         \<and> singleton_slot (snd (singleton_new k w args)) = singleton_slot w
         \<and> (singleton_slot w = NoneVal \<longrightarrow> singleton_slot (snd (singleton_new k w args)) = NoneVal)
         \<and> constructed (snd (singleton_new k (snd (singleton_new k w args)) args')) =
             constructed w @ [args, args']"
proof -
  let ?w1 = "w\<lparr>constructed := constructed w @ [args]\<rparr>"
  have first: "singleton_new k w args = (Inl e, ?w1)"
    by (rule singleton_new_raises [OF assms])
  have "\<not> ref_truthy k (singleton_slot ?w1)"
    using assms(1) by simp
  then have "constructed (snd (singleton_new k ?w1 args')) = constructed ?w1 @ [args']"
    by (cases "construct k args'") (simp_all add: singleton_new_def klass_call_def)
  then show ?thesis
    by (simp add: first)
qed

theorem singleton_failure_retries_witness:
  "\<not> ref_truthy box_klass (singleton_slot (fresh_world :: (int, int) world))
   \<and> construct box_klass (- 1) = Inl (Raised ''negative'')
   \<and> fst (singleton_new box_klass fresh_world (- 1)) = Inl (Raised ''negative'')
   \<and> singleton_slot (snd (singleton_new box_klass fresh_world (- 1))) = NoneVal
   \<and> constructed (snd (singleton_new box_klass (snd (singleton_new box_klass fresh_world (- 1))) 7)) =
        [- 1, 7]"
proof -
  have a: "\<not> ref_truthy box_klass (singleton_slot (fresh_world :: (int, int) world))"
    by (simp add: fresh_world_def)
  have b: "construct box_klass (- 1) = Inl (Raised ''negative'')"
    by (simp add: box_klass_def)
  show ?thesis
    using a b singleton_failure_retries [OF a b, of 7]
    by (simp add: fresh_world_def)
qed

section \<open>Claims about classproperty\<close>

text \<open>
  C8, as the code has it. Let \<open>f\<close> be decorated with classproperty under a name in class
  \<open>K\<close>. The name is then found on \<open>K\<close>; and for every class \<open>C\<close> on which the lookup finds
  this accessor (\<open>K\<close> itself, or a subclass that inherits it), a read of the name from \<open>C\<close>,
  or from an instance of class \<open>C\<close> whose own attribute dictionary does not bind the name,
  calls \<open>f\<close> with \<open>C\<close>, the class the read goes through, and returns what \<open>f\<close> returns.
  Nothing is cached: the next read calls \<open>f\<close> again, in the state the first call left.
\<close>

theorem classproperty_read:
  assumes "tbl K name = Some (classproperty f)"
  shows "mro_lookup tbl (K # ancestors K) name = Some (classproperty f)
         \<and> (mro_lookup tbl (C # ancestors C) name = Some (classproperty f) \<longrightarrow>
              getattr_class tbl ancestors C name w = f C w
              \<and> getattr_class tbl ancestors C name (snd (getattr_class tbl ancestors C name w)) =
                  f C (snd (f C w))
              \<and> (inst_class obj = C \<and> inst_dict obj name = None \<longrightarrow>
                   getattr_instance tbl ancestors obj name w = f C w
                   \<and> getattr_instance tbl ancestors obj name
                       (snd (getattr_instance tbl ancestors obj name w)) = f C (snd (f C w))))"
  using assms by (simp add: getattr_class_def getattr_instance_def classproperty_def)

theorem classproperty_read_witness:
  "my_table MyClass ''attr'' = Some (classproperty counting)
   \<and> mro_lookup my_table (SubClass # my_ancestors SubClass) ''attr'' = Some (classproperty counting)
   \<and> inst_class \<lparr>inst_class = SubClass, inst_dict = Map.empty\<rparr> = SubClass
   \<and> inst_dict \<lparr>inst_class = SubClass, inst_dict = Map.empty\<rparr> ''attr'' = (None :: int option)
   \<and> getattr_class my_table my_ancestors MyClass ''attr'' 0 = (Inr 0, Suc 0)
   \<and> getattr_class my_table my_ancestors SubClass ''attr'' 0 = (Inr 100, Suc 0)
   \<and> getattr_class my_table my_ancestors SubClass ''attr''
        (snd (getattr_class my_table my_ancestors SubClass ''attr'' 0)) = (Inr 101, Suc (Suc 0))
   \<and> getattr_instance my_table my_ancestors \<lparr>inst_class = SubClass, inst_dict = Map.empty\<rparr>
        ''attr'' 0 = (Inr 100, Suc 0)
   \<and> getattr_instance my_table my_ancestors \<lparr>inst_class = MyClass, inst_dict = Map.empty\<rparr>
        ''attr'' 0 = (Inr 0, Suc 0)"
proof -
  have a: "my_table MyClass ''attr'' = Some (classproperty counting)"
    by simp
  show ?thesis
    using a
      classproperty_read [of my_table MyClass "''attr''" counting my_ancestors SubClass 0
        "\<lparr>inst_class = SubClass, inst_dict = Map.empty\<rparr>"]
      classproperty_read [of my_table MyClass "''attr''" counting my_ancestors MyClass 0
        "\<lparr>inst_class = MyClass, inst_dict = Map.empty\<rparr>"]
    by (simp add: getattr_class_def getattr_instance_def classproperty_def)
qed

text \<open>The claim as written fails in two ways. On an instance of \<^verbatim>\<open>MyClass\<close> that has an
  attribute of the same name in its own dictionary, the read returns that attribute and
  the function is not called (the state stays 0). On an instance of the subclass, which
  is an instance of \<^verbatim>\<open>MyClass\<close> too, the function is called with the subclass and the read
  returns \<open>f(SubClass)\<close>, which is not \<open>f(MyClass)\<close>.\<close>

theorem classproperty_shadowed_counterexample:
  "getattr_instance my_table my_ancestors \<lparr>inst_class = MyClass, inst_dict = [''attr'' \<mapsto> 5]\<rparr>
     ''attr'' 0 = (Inr 5, 0)
   \<and> getattr_instance my_table my_ancestors \<lparr>inst_class = SubClass, inst_dict = Map.empty\<rparr>
     ''attr'' 0 = (Inr 100, 1)
   \<and> counting MyClass 0 = (Inr 0, 1)"
  by (simp add: getattr_instance_def classproperty_def)

section \<open>The calendar arithmetic\<close>

text \<open>The ordinal of the date that \<open>ord_to_ymd\<close> computes is the ordinal it started from,
  and the date is a date of the calendar. Nothing below depends on the clock.\<close>

lemma month_cases:
  assumes "1 \<le> (m::int)" "m \<le> 12"
  obtains "m = 1" | "m = 2" | "m = 3" | "m = 4" | "m = 5" | "m = 6"
    | "m = 7" | "m = 8" | "m = 9" | "m = 10" | "m = 11" | "m = 12"
proof -
  from assms have "m = 1 \<or> m = 2 \<or> m = 3 \<or> m = 4 \<or> m = 5 \<or> m = 6
      \<or> m = 7 \<or> m = 8 \<or> m = 9 \<or> m = 10 \<or> m = 11 \<or> m = 12"
    by arith
  then show thesis
    using that by blast
qed

lemma month_day_correct:
  assumes "0 \<le> n" "n \<le> 364" "is_leap y = L"
    and "(let m = (n + 50) div 32;
              preceding = days_before_month_table ! nat m + (if m > 2 \<and> L then 1 else 0)
          in if preceding > n
             then (y, m - 1, n - (preceding - days_in_month y (m - 1)) + 1)
             else (y, m, n - preceding + 1)) = (y', m', d')"
  shows "y' = y \<and> 1 \<le> m' \<and> m' \<le> 12 \<and> 1 \<le> d' \<and> d' \<le> days_in_month y m'
         \<and> days_before_month y m' + d' = n + 1"
proof -
  define k where "k = (n + 50) div 32"
  have k: "1 \<le> k" "k \<le> 12" "32 * k \<le> n + 50" "n + 50 < 32 * k + 32"
    using assms(1,2) unfolding k_def by linarith+
  note defs = days_in_month_def days_before_month_def Let_def days_before_month_table_def
    days_in_month_table_def
  from k(1,2) show ?thesis
  proof (cases rule: month_cases)
    case 1 then show ?thesis using assms k(3,4) unfolding k_def[symmetric]
      by (auto simp: defs split: if_splits)
  next
    case 2 then show ?thesis using assms k(3,4) unfolding k_def[symmetric]
      by (auto simp: defs split: if_splits)
  next
    case 3 then show ?thesis using assms k(3,4) unfolding k_def[symmetric]
      by (auto simp: defs split: if_splits)
  next
    case 4 then show ?thesis using assms k(3,4) unfolding k_def[symmetric]
      by (auto simp: defs split: if_splits)
  next
    case 5 then show ?thesis using assms k(3,4) unfolding k_def[symmetric]
      by (auto simp: defs split: if_splits)
  next
    case 6 then show ?thesis using assms k(3,4) unfolding k_def[symmetric]
      by (auto simp: defs split: if_splits)
  next
    case 7 then show ?thesis using assms k(3,4) unfolding k_def[symmetric]
      by (auto simp: defs split: if_splits)
  next
    case 8 then show ?thesis using assms k(3,4) unfolding k_def[symmetric]
      by (auto simp: defs split: if_splits)
  next
    case 9 then show ?thesis using assms k(3,4) unfolding k_def[symmetric]
      by (auto simp: defs split: if_splits)
  next
    case 10 then show ?thesis using assms k(3,4) unfolding k_def[symmetric]
      by (auto simp: defs split: if_splits)
  next
    case 11 then show ?thesis using assms k(3,4) unfolding k_def[symmetric]
      by (auto simp: defs split: if_splits)
  next
    case 12 then show ?thesis using assms k(3,4) unfolding k_def[symmetric]
      by (auto simp: defs split: if_splits)
  qed
qed

lemma year_digits:
  fixes a b c d :: int
  assumes "0 \<le> a" "0 \<le> b" "b \<le> 3" "0 \<le> c" "c \<le> 24" "0 \<le> d" "d \<le> 3"
  defines "Y \<equiv> 400 * a + 100 * b + 4 * c + d"
  shows "days_before_year (Y + 1) = 146097 * a + 36524 * b + 1461 * c + 365 * d"
    and "is_leap (Y + 1) \<longleftrightarrow> d = 3 \<and> (c \<noteq> 24 \<or> b = 3)"
proof -
  have d4: "Y div 4 = 100 * a + 25 * b + c"
    by (rule int_div_pos_eq [where r = d]) (use assms in \<open>simp_all add: Y_def\<close>)
  have d100: "Y div 100 = 4 * a + b"
    by (rule int_div_pos_eq [where r = "4 * c + d"]) (use assms in \<open>simp_all add: Y_def\<close>)
  have d400: "Y div 400 = a"
    by (rule int_div_pos_eq [where r = "100 * b + 4 * c + d"]) (use assms in \<open>simp_all add: Y_def\<close>)
  have Y0: "0 \<le> Y"
    using assms by (simp add: Y_def)
  show "days_before_year (Y + 1) = 146097 * a + 36524 * b + 1461 * c + 365 * d"
    using Y0 by (simp add: days_before_year_def d4 d100 d400) (simp add: Y_def)
  have m4: "(Y + 1) mod 4 = (if d = 3 then 0 else d + 1)"
  proof (cases "d = 3")
    case True
    have "(Y + 1) mod 4 = 0"
      by (rule int_mod_pos_eq [where q = "100 * a + 25 * b + c + 1"])
        (use True in \<open>simp_all add: Y_def\<close>)
    then show ?thesis using True by simp
  next
    case False
    have "(Y + 1) mod 4 = d + 1"
      by (rule int_mod_pos_eq [where q = "100 * a + 25 * b + c"])
        (use False assms in \<open>simp_all add: Y_def\<close>)
    then show ?thesis using False by simp
  qed
  have m100: "(Y + 1) mod 100 = (if d = 3 \<and> c = 24 then 0 else 4 * c + d + 1)"
  proof (cases "d = 3 \<and> c = 24")
    case True
    have "(Y + 1) mod 100 = 0"
      by (rule int_mod_pos_eq [where q = "4 * a + b + 1"])
        (use True in \<open>simp_all add: Y_def\<close>)
    then show ?thesis using True by simp
  next
    case False
    have "(Y + 1) mod 100 = 4 * c + d + 1"
      by (rule int_mod_pos_eq [where q = "4 * a + b"])
        (use False assms in \<open>simp_all add: Y_def\<close>, linarith)
    then show ?thesis using False by simp
  qed
  have m400: "(Y + 1) mod 400 = (if d = 3 \<and> c = 24 \<and> b = 3 then 0 else 100 * b + 4 * c + d + 1)"
  proof (cases "d = 3 \<and> c = 24 \<and> b = 3")
    case True
    have "(Y + 1) mod 400 = 0"
      by (rule int_mod_pos_eq [where q = "a + 1"])
        (use True in \<open>simp_all add: Y_def\<close>)
    then show ?thesis using True by simp
  next
    case False
    have "(Y + 1) mod 400 = 100 * b + 4 * c + d + 1"
      by (rule int_mod_pos_eq [where q = "a"])
        (use False assms in \<open>simp_all add: Y_def\<close>, linarith)
    then show ?thesis using False by simp
  qed
  show "is_leap (Y + 1) \<longleftrightarrow> d = 3 \<and> (c \<noteq> 24 \<or> b = 3)"
    unfolding is_leap_def m4 m100 m400 using assms by auto
qed

lemma ord_to_ymd_correct:
  assumes "1 \<le> n" and "ord_to_ymd n = (y, m, d)"
  shows "ymd_to_ord y m d = n \<and> 1 \<le> y \<and> 1 \<le> m \<and> m \<le> 12 \<and> 1 \<le> d \<and> d \<le> days_in_month y m
         \<and> days_before_year y < n"
proof -
  define N where "N = n - 1"
  define a where "a = N div 146097"
  define r where "r = N mod 146097"
  define b where "b = r div 36524"
  define r2 where "r2 = r mod 36524"
  define c where "c = r2 div 1461"
  define r3 where "r3 = r2 mod 1461"
  define dd where "dd = r3 div 365"
  define e where "e = r3 mod 365"
  define L where "L \<longleftrightarrow> dd = 3 \<and> (c \<noteq> 24 \<or> b = 3)"
  define y0 where "y0 = a * 400 + 1 + b * 100 + c * 4 + dd"
  have N: "0 \<le> N" using assms(1) by (simp add: N_def)
  have a: "0 \<le> a" "N = 146097 * a + r" "0 \<le> r" "r < 146097"
    using N unfolding a_def r_def by (simp_all add: pos_imp_zdiv_nonneg_iff)
  have b: "0 \<le> b" "r = 36524 * b + r2" "0 \<le> r2" "r2 < 36524"
    using a(3) unfolding b_def r2_def by (simp_all add: pos_imp_zdiv_nonneg_iff)
  have c: "0 \<le> c" "r2 = 1461 * c + r3" "0 \<le> r3" "r3 < 1461"
    using b(3) unfolding c_def r3_def by (simp_all add: pos_imp_zdiv_nonneg_iff)
  have dd: "0 \<le> dd" "r3 = 365 * dd + e" "0 \<le> e" "e < 365"
    using c(3) unfolding dd_def e_def by (simp_all add: pos_imp_zdiv_nonneg_iff)
  have b_le: "b \<le> 4"
    using a(4) b(1,2,3) by linarith
  have c_le: "c \<le> 24"
    using b(4) c(1,2,3) by linarith
  have dd_le: "dd \<le> 4"
    using c(4) dd(1,2,3) by linarith
  have n: "n = 146097 * a + 36524 * b + 1461 * c + 365 * dd + e + 1"
    using a(2) b(2) c(2) dd(2) by (simp add: N_def)
  have unf: "ord_to_ymd n =
      (if dd = 4 \<or> b = 4 then (y0 - 1, 12, 31)
       else (let m = (e + 50) div 32;
                 preceding = days_before_month_table ! nat m + (if m > 2 \<and> L then 1 else 0)
             in if preceding > e
                then (y0, m - 1, e - (preceding - days_in_month y0 (m - 1)) + 1)
                else (y0, m, e - preceding + 1)))"
    unfolding ord_to_ymd_def Let_def N_def a_def r_def b_def r2_def c_def r3_def dd_def
      e_def L_def y0_def
    by (rule refl)
  have dec: "days_before_month_table ! 12 = 334" "days_in_month_table ! 12 = 31"
    by (simp_all add: days_before_month_table_def days_in_month_table_def)
  consider (b4) "b = 4" | (d4) "b \<le> 3" "dd = 4" | (normal) "b \<le> 3" "dd \<le> 3"
    using b_le dd_le by linarith
  then show ?thesis
  proof cases
    case b4
    have z: "r2 = 0" "c = 0" "r3 = 0" "dd = 0" "e = 0"
      using b4 a(4) b(2,3) c(1,2,3) dd(1,2,3) by linarith+
    have ymd: "y = 400 * a + 399 + 1" "m = 12" "d = 31"
      using assms(2) unf b4 z by (simp_all add: y0_def)
    from year_digits [of a 3 24 3] a(1)
    have "days_before_year (400 * a + 399 + 1) = 146097 * a + 145731" "is_leap (400 * a + 399 + 1)"
      by simp_all
    then show ?thesis
      using n b4 z a(1) unfolding ymd
      by (simp add: ymd_to_ord_def days_before_month_def days_in_month_def dec)
  next
    case d4
    have z: "r3 = 1460" "e = 0" "c \<le> 23"
      using d4 b(4) c(2,4) dd(2,3) by linarith+
    have ymd: "y = 400 * a + 100 * b + 4 * c + 3 + 1" "m = 12" "d = 31"
      using assms(2) unf d4 by (simp_all add: y0_def)
    from year_digits [of a b c 3] a(1) b(1) d4(1) c(1) z(3)
    have "days_before_year (400 * a + 100 * b + 4 * c + 3 + 1) =
            146097 * a + 36524 * b + 1461 * c + 1095"
      "is_leap (400 * a + 100 * b + 4 * c + 3 + 1)"
      by simp_all
    then show ?thesis
      using n d4 z a(1) b(1) c(1) unfolding ymd
      by (simp add: ymd_to_ord_def days_before_month_def days_in_month_def dec)
  next
    case normal
    have y0: "y0 = 400 * a + 100 * b + 4 * c + dd + 1"
      by (simp add: y0_def)
    from year_digits [of a b c dd] a(1) b(1) normal c(1) c_le dd(1)
    have dby: "days_before_year y0 = 146097 * a + 36524 * b + 1461 * c + 365 * dd"
      and leap: "is_leap y0 = L"
      unfolding y0 L_def by simp_all
    have "(let m = (e + 50) div 32;
               preceding = days_before_month_table ! nat m + (if m > 2 \<and> L then 1 else 0)
           in if preceding > e
              then (y0, m - 1, e - (preceding - days_in_month y0 (m - 1)) + 1)
              else (y0, m, e - preceding + 1)) = (y, m, d)"
      using assms(2) unf normal by simp
    from month_day_correct [OF dd(3) _ leap this] dd(4)
    have md: "y = y0" "1 \<le> m" "m \<le> 12" "1 \<le> d" "d \<le> days_in_month y0 m"
      "days_before_month y0 m + d = e + 1"
      by simp_all
    have "1 \<le> y0"
      using a(1) b(1) c(1) dd(1) by (simp add: y0)
    then show ?thesis
      using md dby n dd(3) by (simp add: ymd_to_ord_def)
  qed
qed

lemma year_decompose:
  assumes "1 \<le> y"
  obtains a b c d :: int where
    "y = 400 * a + 100 * b + 4 * c + d + 1"
    "0 \<le> a" "0 \<le> b" "b \<le> 3" "0 \<le> c" "c \<le> 24" "0 \<le> d" "d \<le> 3"
    "days_before_year y = 146097 * a + 36524 * b + 1461 * c + 365 * d"
proof -
  define Y where "Y = y - 1"
  define a where "a = Y div 400"
  define r where "r = Y mod 400"
  define b where "b = r div 100"
  define r' where "r' = r mod 100"
  define c where "c = r' div 4"
  define d where "d = r' mod 4"
  have Y: "0 \<le> Y" using assms by (simp add: Y_def)
  have a: "0 \<le> a" "Y = 400 * a + r" "0 \<le> r" "r < 400"
    using Y unfolding a_def r_def by (simp_all add: pos_imp_zdiv_nonneg_iff)
  have b: "0 \<le> b" "r = 100 * b + r'" "0 \<le> r'" "r' < 100"
    using a(3) unfolding b_def r'_def by (simp_all add: pos_imp_zdiv_nonneg_iff)
  have c: "0 \<le> c" "r' = 4 * c + d" "0 \<le> d" "d < 4"
    using b(3) unfolding c_def d_def by (simp_all add: pos_imp_zdiv_nonneg_iff)
  have ub: "b \<le> 3" "c \<le> 24" "d \<le> 3"
    using a(4) b c by linarith+
  have y: "y = 400 * a + 100 * b + 4 * c + d + 1"
    using a(2) b(2) c(2) by (simp add: Y_def)
  from year_digits(1) [of a b c d] a(1) b(1) ub c(1,3)
  have "days_before_year y = 146097 * a + 36524 * b + 1461 * c + 365 * d"
    unfolding y by simp
  with y a(1) b(1) ub c(1,3) show thesis
    by (rule_tac that) simp_all
qed

lemma days_before_year_bounds:
  "1 \<le> y \<Longrightarrow> 0 \<le> days_before_year y"
  "10000 \<le> y \<Longrightarrow> 3652059 \<le> days_before_year y"
  "1 \<le> y \<Longrightarrow> y \<le> 9998 \<Longrightarrow> days_before_year y \<le> 3651329"
proof -
  show "0 \<le> days_before_year y" if "1 \<le> y"
  proof -
    from year_decompose [OF that] obtain a b c d :: int where
      h: "0 \<le> a" "0 \<le> b" "0 \<le> c" "0 \<le> d"
        "days_before_year y = 146097 * a + 36524 * b + 1461 * c + 365 * d"
      by metis
    then show ?thesis by simp
  qed
  show "3652059 \<le> days_before_year y" if "10000 \<le> y"
  proof -
    have "1 \<le> y" using that by simp
    from year_decompose [OF this] obtain a b c d :: int where
      h: "y = 400 * a + 100 * b + 4 * c + d + 1"
        "0 \<le> a" "0 \<le> b" "b \<le> 3" "0 \<le> c" "c \<le> 24" "0 \<le> d" "d \<le> 3"
        "days_before_year y = 146097 * a + 36524 * b + 1461 * c + 365 * d"
      by metis
    consider "25 \<le> a" | "a = 24" | "a \<le> 23" by linarith
    then show ?thesis
      using h that by cases linarith+
  qed
  show "days_before_year y \<le> 3651329" if "1 \<le> y" "y \<le> 9998"
  proof -
    from year_decompose [OF that(1)] obtain a b c d :: int where
      h: "y = 400 * a + 100 * b + 4 * c + d + 1"
        "0 \<le> a" "0 \<le> b" "b \<le> 3" "0 \<le> c" "c \<le> 24" "0 \<le> d" "d \<le> 3"
        "days_before_year y = 146097 * a + 36524 * b + 1461 * c + 365 * d"
      by metis
    consider "a \<le> 23" | "a = 24" "b \<le> 2" | "a = 24" "b = 3" "c \<le> 23"
      | "a = 24" "b = 3" "c = 24" | "25 \<le> a"
      using h(4,6) by atomize_elim arith
    then show ?thesis
      using h that by cases linarith+
  qed
qed

lemma year_9999: "days_before_year 9999 = 3651694" "\<not> is_leap 9999"
  by (simp_all add: days_before_year_def is_leap_def)

lemma month_day_bounds:
  assumes "1 \<le> m" "m \<le> 12" "1 \<le> d" "d \<le> days_in_month y m"
  shows "1 \<le> days_before_month y m + d"
    and "days_before_month y m + d \<le> (if is_leap y then 366 else 365)"
  using assms(1,2)
  by (cases rule: month_cases;
      use assms(3,4) in \<open>simp add: days_before_month_def days_in_month_def
        days_before_month_table_def days_in_month_table_def split: if_splits\<close>)+

lemma ymd_to_ord_bounds:
  assumes "1 \<le> y" "y \<le> 9999" "1 \<le> m" "m \<le> 12" "1 \<le> d" "d \<le> days_in_month y m"
  shows "1 \<le> ymd_to_ord y m d" and "ymd_to_ord y m d \<le> MAXORDINAL"
proof -
  note md = month_day_bounds [OF assms(3-6)]
  show "1 \<le> ymd_to_ord y m d"
    using md(1) days_before_year_bounds(1) [OF assms(1)] by (simp add: ymd_to_ord_def)
  show "ymd_to_ord y m d \<le> MAXORDINAL"
  proof (cases "y = 9999")
    case True
    then show ?thesis
      using md(2) year_9999
      by (simp add: ymd_to_ord_def MAXORDINAL_def)
  next
    case False
    then have "y \<le> 9998" using assms(2) by simp
    from days_before_year_bounds(3) [OF assms(1) this] md(2) show ?thesis
      by (simp add: ymd_to_ord_def MAXORDINAL_def split: if_splits)
  qed
qed

lemma ord_to_ymd_year_le:
  assumes "1 \<le> n" "n \<le> MAXORDINAL" "ord_to_ymd n = (y, m, d)"
  shows "y \<le> 9999"
proof (rule ccontr)
  assume "\<not> y \<le> 9999"
  then have "10000 \<le> y" by simp
  from days_before_year_bounds(2) [OF this] ord_to_ymd_correct [OF assms(1,3)] assms(2)
  show False by (simp add: MAXORDINAL_def)
qed

lemma week_start_ordinal:
  assumes "1 \<le> (n::int)"
  shows "1 \<le> n - (n + 6) mod 7"
proof (cases "7 \<le> n")
  case True
  have "(n + 6) mod 7 \<le> 6" by simp
  then show ?thesis using True by linarith
next
  case False
  have "(n + 6) mod 7 = n - 1"
    by (rule int_mod_pos_eq [where q = 1]) (use assms False in simp_all)
  then show ?thesis by simp
qed

section \<open>Datetime arithmetic\<close>

lemma valid_toordinal:
  assumes "valid_datetime t"
  shows "1 \<le> toordinal t" and "toordinal t \<le> MAXORDINAL"
  using assms ymd_to_ord_bounds [of "year t" "month t" "day t"]
  by (simp_all add: valid_datetime_def toordinal_def)

lemma time_of_day:
  fixes h m s :: int
  assumes "0 \<le> h" "h \<le> 23" "0 \<le> m" "m \<le> 59" "0 \<le> s" "s \<le> 59"
  shows "0 \<le> h * 3600 + m * 60 + s" and "h * 3600 + m * 60 + s < 86400"
    and "(h * 3600 + m * 60 + s) div 3600 = h"
    and "(h * 3600 + m * 60 + s) mod 3600 div 60 = m"
    and "(h * 3600 + m * 60 + s) mod 3600 mod 60 = s"
proof -
  show "0 \<le> h * 3600 + m * 60 + s" "h * 3600 + m * 60 + s < 86400"
    using assms by linarith+
  show "(h * 3600 + m * 60 + s) div 3600 = h"
    by (rule int_div_pos_eq [where r = "m * 60 + s"]) (use assms in simp_all)
  have r: "(h * 3600 + m * 60 + s) mod 3600 = m * 60 + s"
    by (rule int_mod_pos_eq [where q = h]) (use assms in simp_all)
  show "(h * 3600 + m * 60 + s) mod 3600 div 60 = m"
    unfolding r by (rule int_div_pos_eq [where r = s]) (use assms in simp_all)
  show "(h * 3600 + m * 60 + s) mod 3600 mod 60 = s"
    unfolding r by (rule int_mod_pos_eq [where q = m]) (use assms in simp_all)
qed

lemma seconds_of_day:
  fixes x :: int
  assumes "0 \<le> x" "x < 86400"
  shows "0 \<le> x div 3600" "x div 3600 \<le> 23" "0 \<le> x mod 3600 div 60" "x mod 3600 div 60 \<le> 59"
    "0 \<le> x mod 3600 mod 60" "x mod 3600 mod 60 \<le> 59"
    "x div 3600 * 3600 + x mod 3600 div 60 * 60 + x mod 3600 mod 60 = x"
proof -
  have q: "x = 3600 * (x div 3600) + x mod 3600" "0 \<le> x mod 3600" "x mod 3600 < 3600"
    by simp_all
  have p: "x mod 3600 = 60 * (x mod 3600 div 60) + x mod 3600 mod 60"
    "0 \<le> x mod 3600 mod 60" "x mod 3600 mod 60 < 60"
    by simp_all
  show "0 \<le> x div 3600" using assms(1) by (simp add: pos_imp_zdiv_nonneg_iff)
  show "x div 3600 \<le> 23" using assms q by linarith
  show "0 \<le> x mod 3600 div 60" by (simp add: pos_imp_zdiv_nonneg_iff)
  show "x mod 3600 div 60 \<le> 59" using q p by linarith
  show "0 \<le> x mod 3600 mod 60" "x mod 3600 mod 60 \<le> 59" using p by simp_all
  show "x div 3600 * 3600 + x mod 3600 div 60 * 60 + x mod 3600 mod 60 = x"
    using q(1) p(1) by linarith
qed

text \<open>Building a datetime on the date of an ordinal in range succeeds.\<close>

lemma datetime_on_ordinal:
  assumes "1 \<le> k" "k \<le> MAXORDINAL"
    and "0 \<le> hh" "hh \<le> 23" "0 \<le> mm" "mm \<le> 59" "0 \<le> ss" "ss \<le> 59" "0 \<le> us" "us \<le> 999999"
  obtains dt where
    "(case ord_to_ymd k of (y, m, d) \<Rightarrow> datetime_new y m d hh mm ss us tz) = Inr dt"
    "toordinal dt = k" "hour dt = hh" "minute dt = mm" "second dt = ss" "microsecond dt = us"
    "tzinfo dt = tz" "valid_datetime dt"
proof -
  obtain y m d where ymd: "ord_to_ymd k = (y, m, d)"
    by (cases "ord_to_ymd k") auto
  note c = ord_to_ymd_correct [OF assms(1) ymd] ord_to_ymd_year_le [OF assms(1,2) ymd]
  let ?dt = "\<lparr>year = y, month = m, day = d, hour = hh, minute = mm, second = ss,
              microsecond = us, tzinfo = tz\<rparr>"
  have "(case ord_to_ymd k of (y, m, d) \<Rightarrow> datetime_new y m d hh mm ss us tz) = Inr ?dt"
    using c assms(3-) by (simp add: ymd datetime_new_def)
  moreover have "toordinal ?dt = k"
    using c by (simp add: toordinal_def)
  moreover have "valid_datetime ?dt"
    using c assms(3-) by (simp add: valid_datetime_def)
  ultimately show thesis
    by (rule_tac that [of ?dt]) simp_all
qed

text \<open>Adding a timedelta whose seconds and microseconds do not carry.\<close>

lemma datetime_add_no_carry:
  assumes v: "valid_datetime t"
    and s: "0 \<le> seconds td" "hour t * 3600 + minute t * 60 + second t + seconds td < 86400"
    and u: "0 \<le> microseconds td" "microsecond t + microseconds td < 1000000"
    and k: "1 \<le> toordinal t + days td" "toordinal t + days td \<le> MAXORDINAL"
  obtains dt where "datetime_add t td = Inr dt"
    "toordinal dt = toordinal t + days td"
    "hour dt = (hour t * 3600 + minute t * 60 + second t + seconds td) div 3600"
    "minute dt = (hour t * 3600 + minute t * 60 + second t + seconds td) mod 3600 div 60"
    "second dt = (hour t * 3600 + minute t * 60 + second t + seconds td) mod 3600 mod 60"
    "microsecond dt = microsecond t + microseconds td"
    "tzinfo dt = tzinfo t" "valid_datetime dt"
proof -
  define hs where "hs = hour t * 3600 + minute t * 60 + second t"
  have hs: "0 \<le> hs" "hs < 86400"
    using v time_of_day(1,2) [of "hour t" "minute t" "second t"]
    by (simp_all add: valid_datetime_def hs_def)
  have us: "0 \<le> microsecond t" "microsecond t < 1000000"
    using v by (simp_all add: valid_datetime_def)
  note ord = valid_toordinal [OF v]
  have own: "timedelta_new (toordinal t) hs (microsecond t) =
      Inr \<lparr>days = toordinal t, seconds = hs, microseconds = microsecond t\<rparr>"
    using hs us ord by (simp add: timedelta_new_def Let_def MAXORDINAL_def)
  define S where "S = hs + seconds td"
  define U where "U = microsecond t + microseconds td"
  have S: "0 \<le> S" "S < 86400" using s hs by (simp_all add: S_def hs_def)
  have U: "0 \<le> U" "U < 1000000" using u us by (simp_all add: U_def)
  have sum: "timedelta_add \<lparr>days = toordinal t, seconds = hs, microseconds = microsecond t\<rparr> td =
      Inr \<lparr>days = toordinal t + days td, seconds = S, microseconds = U\<rparr>"
    using S U k by (simp add: timedelta_add_def timedelta_new_def Let_def MAXORDINAL_def S_def U_def)
  note sd = seconds_of_day [OF S]
  from datetime_on_ordinal [OF k sd(1-6) U(1), where tz = "tzinfo t"] U(2)
  obtain dt where dt:
    "(case ord_to_ymd (toordinal t + days td) of
        (y, m, d) \<Rightarrow> datetime_new y m d (S div 3600) (S mod 3600 div 60) (S mod 3600 mod 60) U
          (tzinfo t)) = Inr dt"
    "toordinal dt = toordinal t + days td" "hour dt = S div 3600" "minute dt = S mod 3600 div 60"
    "second dt = S mod 3600 mod 60" "microsecond dt = U" "tzinfo dt = tzinfo t" "valid_datetime dt"
    by auto
  have "datetime_add t td = Inr dt"
    using own sum k dt(1) by (simp add: datetime_add_def hs_def [symmetric])
  then show thesis
    using dt(2-) by (rule_tac that [of dt]) (simp_all add: S_def U_def hs_def)
qed

lemma week_start_result:
  assumes v: "valid_datetime t"
  obtains ws where "week_start t = Inr ws"
    "datetime_fromordinal (toordinal t - weekday t) = Inr ws"
    "toordinal ws = toordinal t - weekday t"
    "hour ws = 0" "minute ws = 0" "second ws = 0" "microsecond ws = 0" "tzinfo ws = None"
    "valid_datetime ws" "weekday ws = 0"
proof -
  note ord = valid_toordinal [OF v]
  define w where "w = weekday t"
  have w: "0 \<le> w" "w \<le> 6" "1 \<le> toordinal t - w"
    using week_start_ordinal [OF ord(1)] by (simp_all add: w_def weekday_def)
  have wd: "timedelta_new w 0 0 = Inr \<lparr>days = w, seconds = 0, microseconds = 0\<rparr>"
    using w by (simp add: timedelta_new_def)
  have neg: "timedelta_neg \<lparr>days = w, seconds = 0, microseconds = 0\<rparr> =
      Inr \<lparr>days = - w, seconds = 0, microseconds = 0\<rparr>"
    using w by (simp add: timedelta_neg_def timedelta_new_def)
  have tod: "hour t * 3600 + minute t * 60 + second t < 86400"
    using v time_of_day(2) [of "hour t" "minute t" "second t"] by (simp add: valid_datetime_def)
  have us: "microsecond t < 1000000"
    using v by (simp add: valid_datetime_def)
  from datetime_add_no_carry [OF v, of "\<lparr>days = - w, seconds = 0, microseconds = 0\<rparr>"] tod us w ord
  obtain t1 where t1: "datetime_add t \<lparr>days = - w, seconds = 0, microseconds = 0\<rparr> = Inr t1"
    "toordinal t1 = toordinal t - w"
    by auto
  have k: "1 \<le> toordinal t - w" "toordinal t - w \<le> MAXORDINAL"
    using w ord by simp_all
  from datetime_on_ordinal [OF k, of 0 0 0 0 None]
  obtain ws where ws:
    "(case ord_to_ymd (toordinal t - w) of (y, m, d) \<Rightarrow> datetime_new y m d 0 0 0 0 None) = Inr ws"
    "toordinal ws = toordinal t - w" "hour ws = 0" "minute ws = 0" "second ws = 0"
    "microsecond ws = 0" "tzinfo ws = None" "valid_datetime ws"
    by auto
  have "week_start t = Inr ws"
    using wd neg t1 ws(1) k
    by (simp add: week_start_def datetime_sub_timedelta_def datetime_fromordinal_def
        w_def [symmetric])
  moreover have "datetime_fromordinal (toordinal t - weekday t) = Inr ws"
    using ws(1) k by (simp add: datetime_fromordinal_def w_def)
  moreover have "weekday ws = 0"
  proof -
    have "toordinal ws + 6 = 7 * ((toordinal t + 6) div 7)"
      unfolding ws(2) w_def weekday_def
      using mult_div_mod_eq [of 7 "toordinal t + 6"] by linarith
    then show ?thesis
      by (simp add: weekday_def)
  qed
  ultimately show thesis
    using ws(2-) by (rule_tac that [of ws]) (simp_all add: w_def)
qed

lemma py_int_seconds:
  assumes "0 \<le> u" "u < 1000000" "0 \<le> K"
  shows "py_int (of_int (u + K * 1000000) / 1000000) = K"
proof -
  have "(u + K * 1000000) div 1000000 = K"
    by (rule int_div_pos_eq [where r = u]) (use assms in simp_all)
  moreover have "\<lfloor>(of_int (u + K * 1000000) :: rat) / of_int 1000000\<rfloor> = (u + K * 1000000) div 1000000"
    by (rule floor_divide_of_int_eq)
  moreover have "(0::rat) \<le> of_int (u + K * 1000000) / 1000000"
    using assms by simp
  ultimately show ?thesis
    by (simp add: py_int_def)
qed

lemma week_seconds_naive:
  assumes v: "valid_datetime t" and naive: "tzinfo t = None"
  shows "week_seconds t = Inr (weekday t * 86400 + hour t * 3600 + minute t * 60 + second t)"
proof -
  from week_start_result [OF v] obtain ws where ws: "week_start t = Inr ws"
    "toordinal ws = toordinal t - weekday t"
    "hour ws = 0" "minute ws = 0" "second ws = 0" "microsecond ws = 0" "tzinfo ws = None"
    by metis
  define w where "w = weekday t"
  define hs where "hs = hour t * 3600 + minute t * 60 + second t"
  have w: "0 \<le> w" "w \<le> 6"
    by (simp_all add: w_def weekday_def)
  have hs: "0 \<le> hs" "hs < 86400"
    using v time_of_day(1,2) [of "hour t" "minute t" "second t"]
    by (simp_all add: valid_datetime_def hs_def)
  have us: "0 \<le> microsecond t" "microsecond t < 1000000"
    using v by (simp_all add: valid_datetime_def)
  have sub: "datetime_sub t ws = Inr \<lparr>days = w, seconds = hs, microseconds = microsecond t\<rparr>"
    using naive ws w hs us
    by (simp add: datetime_sub_def timedelta_new_def Let_def w_def [symmetric] hs_def [symmetric])
  have "0 \<le> hs + w * 86400"
    using w hs by simp
  from py_int_seconds [OF us this]
  have "py_int (total_seconds \<lparr>days = w, seconds = hs, microseconds = microsecond t\<rparr>) =
      hs + w * 86400"
    by (simp add: total_seconds_def algebra_simps)
  then show ?thesis
    using ws(1) sub by (simp add: week_seconds_def w_def hs_def)
qed

lemma week_seconds_aware:
  assumes v: "valid_datetime t" and aware: "tzinfo t = Some UTC"
  shows "week_seconds t = Inl TypeError"
proof -
  from week_start_result [OF v] obtain ws where ws: "week_start t = Inr ws" "tzinfo ws = None"
    by metis
  then show ?thesis
    using aware by (simp add: week_seconds_def datetime_sub_def)
qed

lemma valid_thursday: "valid_datetime thursday" "valid_datetime thursday_utc"
  by (simp_all add: valid_datetime_def thursday_def thursday_utc_def days_in_month_def
      days_in_month_table_def is_leap_def)

lemma thursday_fields:
  "toordinal thursday = 738959" "weekday thursday = 3" "tzinfo thursday = None"
  "tzinfo thursday_utc = Some UTC"
  by (simp_all add: thursday_def thursday_utc_def toordinal_def weekday_def ymd_to_ord_def
      days_before_year_def days_before_month_def days_before_month_table_def is_leap_def)

section \<open>Claims about pytool.time\<close>

text \<open>
  C6, as the code has it. For every naive timestamp, \<open>week_seconds\<close> returns an integer in
  \<open>[0, 604800)\<close>: the whole seconds elapsed since 00:00 of the Monday of the timestamp's
  week, which is what \<open>week_start\<close> returns. For a timezone-aware timestamp it raises
  \<^verbatim>\<open>TypeError\<close>, because \<open>week_start\<close> returns a naive datetime and Python does not
  subtract a naive datetime from an aware one.
\<close>

theorem week_seconds_range:
  assumes "valid_datetime t"
  shows "(tzinfo t = None \<longrightarrow>
            (\<exists>n ws. week_seconds t = Inr n \<and> 0 \<le> n \<and> n < 604800
               \<and> week_start t = Inr ws \<and> weekday ws = 0
               \<and> hour ws = 0 \<and> minute ws = 0 \<and> second ws = 0 \<and> microsecond ws = 0
               \<and> 0 \<le> toordinal t - toordinal ws \<and> toordinal t - toordinal ws \<le> 6
               \<and> n = (toordinal t - toordinal ws) * 86400
                     + hour t * 3600 + minute t * 60 + second t))
         \<and> (tzinfo t = Some UTC \<longrightarrow> week_seconds t = Inl TypeError)"
proof (intro conjI impI)
  assume naive: "tzinfo t = None"
  from week_start_result [OF assms] obtain ws where ws: "week_start t = Inr ws"
    "toordinal ws = toordinal t - weekday t"
    "hour ws = 0" "minute ws = 0" "second ws = 0" "microsecond ws = 0" "weekday ws = 0"
    by metis
  have w: "0 \<le> weekday t" "weekday t \<le> 6"
    by (simp_all add: weekday_def)
  have hs: "0 \<le> hour t * 3600 + minute t * 60 + second t"
    "hour t * 3600 + minute t * 60 + second t < 86400"
    using assms time_of_day(1,2) [of "hour t" "minute t" "second t"]
    by (simp_all add: valid_datetime_def)
  let ?n = "weekday t * 86400 + hour t * 3600 + minute t * 60 + second t"
  have "0 \<le> ?n" "?n < 604800"
    using w hs by linarith+
  with week_seconds_naive [OF assms naive] ws w
  show "\<exists>n ws. week_seconds t = Inr n \<and> 0 \<le> n \<and> n < 604800
               \<and> week_start t = Inr ws \<and> weekday ws = 0
               \<and> hour ws = 0 \<and> minute ws = 0 \<and> second ws = 0 \<and> microsecond ws = 0
               \<and> 0 \<le> toordinal t - toordinal ws \<and> toordinal t - toordinal ws \<le> 6
               \<and> n = (toordinal t - toordinal ws) * 86400
                     + hour t * 3600 + minute t * 60 + second t"
    by (intro exI [of _ ?n] exI [of _ ws]) simp
next
  assume "tzinfo t = Some UTC"
  then show "week_seconds t = Inl TypeError"
    by (rule week_seconds_aware [OF assms])
qed

theorem week_seconds_range_witness:
  "valid_datetime thursday \<and> tzinfo thursday = None \<and> week_seconds thursday = Inr 306309
   \<and> valid_datetime thursday_utc \<and> tzinfo thursday_utc = Some UTC
   \<and> week_seconds thursday_utc = Inl TypeError"
proof -
  from week_seconds_range [OF valid_thursday(1)] thursday_fields(3)
  obtain n ws where "week_seconds thursday = Inr n" "week_start thursday = Inr ws"
    "n = (toordinal thursday - toordinal ws) * 86400
           + hour thursday * 3600 + minute thursday * 60 + second thursday"
    by auto
  moreover from week_start_result [OF valid_thursday(1)] obtain ws' where
    "week_start thursday = Inr ws'" "toordinal ws' = toordinal thursday - weekday thursday"
    by metis
  ultimately have "week_seconds thursday = Inr 306309"
    by (simp add: thursday_fields) (simp add: thursday_def)
  moreover from week_seconds_range [OF valid_thursday(2)] thursday_fields(4)
  have "week_seconds thursday_utc = Inl TypeError"
    by simp
  ultimately show ?thesis
    using valid_thursday thursday_fields by simp
qed

text \<open>The claim as written, for every timestamp, fails on a timezone-aware one.\<close>

theorem week_seconds_aware_counterexample:
  "valid_datetime thursday_utc \<and> week_seconds thursday_utc = Inl TypeError"
  using valid_thursday(2) week_seconds_aware [OF valid_thursday(2) thursday_fields(4)] by simp

text \<open>
  C9. For every timestamp \<open>t\<close>, naive or aware, \<open>week_start t\<close> returns a datetime and
  \<open>week_seconds\<close> of it is 0.
\<close>

theorem week_seconds_of_week_start:
  assumes "valid_datetime t"
  shows "\<exists>ws. week_start t = Inr ws \<and> week_seconds ws = Inr 0"
proof -
  from week_start_result [OF assms] obtain ws where ws: "week_start t = Inr ws"
    "hour ws = 0" "minute ws = 0" "second ws = 0" "tzinfo ws = None"
    "valid_datetime ws" "weekday ws = 0"
    by metis
  from week_seconds_naive [OF ws(6,5)] ws show ?thesis
    by simp
qed

theorem week_seconds_of_week_start_witness:
  "valid_datetime thursday_utc \<and> (\<exists>ws. week_start thursday_utc = Inr ws \<and> week_seconds ws = Inr 0)"
  using valid_thursday(2) week_seconds_of_week_start [OF valid_thursday(2)] by simp

text \<open>
  C10. For every datetime \<open>t\<close>, \<open>trim_time t\<close> returns a datetime with the year, month, day
  and tzinfo of \<open>t\<close> and with hour, minute, second and microsecond 0.
\<close>

theorem trim_time_date:
  assumes "valid_datetime t"
  shows "\<exists>r. trim_time t = Inr r \<and> year r = year t \<and> month r = month t \<and> day r = day t
           \<and> hour r = 0 \<and> minute r = 0 \<and> second r = 0 \<and> microsecond r = 0
           \<and> tzinfo r = tzinfo t"
  using assms by (simp add: trim_time_def date_timetuple_def datetime_new_def valid_datetime_def)

theorem trim_time_date_witness:
  "valid_datetime thursday_utc
   \<and> trim_time thursday_utc =
       Inr \<lparr>year = 2024, month = 3, day = 14, hour = 0, minute = 0, second = 0,
            microsecond = 0, tzinfo = Some UTC\<rparr>"
proof -
  from trim_time_date [OF valid_thursday(2)] obtain r where
    "trim_time thursday_utc = Inr r" "year r = year thursday_utc" "month r = month thursday_utc"
    "day r = day thursday_utc" "hour r = 0" "minute r = 0" "second r = 0" "microsecond r = 0"
    "tzinfo r = tzinfo thursday_utc"
    by blast
  then have "trim_time thursday_utc =
       Inr \<lparr>year = 2024, month = 3, day = 14, hour = 0, minute = 0, second = 0,
            microsecond = 0, tzinfo = Some UTC\<rparr>"
    by (cases r) (simp add: thursday_utc_def thursday_def)
  then show ?thesis
    using valid_thursday(2) by simp
qed

text \<open>
  C3, as the code has it. \<open>week_seconds_to_datetime\<close> counts from the start of the week of
  the clock reading, not of the week of \<open>t\<close>. For every naive timestamp \<open>t\<close> and clock
  reading \<open>now\<close> (with the day of \<open>t\<close>'s weekday in the current week not after 9999-12-31),
  \<open>week_seconds_to_datetime (week_seconds t)\<close> is a datetime in the week of \<open>now\<close> (its
  \<open>week_start\<close> is that of \<open>now\<close>) with the weekday, hour, minute and second of \<open>t\<close>.
\<close>

theorem week_seconds_to_datetime_current_week:
  assumes vt: "valid_datetime t" and naive: "tzinfo t = None" and vn: "valid_datetime now"
    and range: "toordinal now - weekday now + weekday t \<le> MAXORDINAL"
  shows "\<exists>n r ws. week_seconds t = Inr n \<and> week_seconds_to_datetime now n = Inr r
           \<and> week_start now = Inr ws \<and> week_start r = Inr ws
           \<and> weekday r = weekday t \<and> hour r = hour t \<and> minute r = minute t
           \<and> second r = second t"
proof -
  define w where "w = weekday t"
  define hs where "hs = hour t * 3600 + minute t * 60 + second t"
  define n where "n = w * 86400 + hs"
  have w: "0 \<le> w" "w \<le> 6"
    by (simp_all add: w_def weekday_def)
  have f: "0 \<le> hour t" "hour t \<le> 23" "0 \<le> minute t" "minute t \<le> 59"
    "0 \<le> second t" "second t \<le> 59"
    using vt by (simp_all add: valid_datetime_def)
  note tod = time_of_day [OF f]
  have hs: "0 \<le> hs" "hs < 86400"
    using tod(1,2) by (simp_all add: hs_def)
  have n: "week_seconds t = Inr n"
    using week_seconds_naive [OF vt naive] by (simp add: n_def w_def hs_def)
  have nd: "n div 86400 = w"
    unfolding n_def by (rule int_div_pos_eq [where r = hs]) (use hs in simp_all)
  have nm: "n mod 86400 = hs"
    unfolding n_def by (rule int_mod_pos_eq [where q = w]) (use hs in simp_all)
  have td: "timedelta_new 0 n 0 = Inr \<lparr>days = w, seconds = hs, microseconds = 0\<rparr>"
    using w by (simp add: timedelta_new_def nd nm)
  from week_start_result [OF vn] obtain ws where ws: "week_start now = Inr ws"
    "datetime_fromordinal (toordinal now - weekday now) = Inr ws"
    "toordinal ws = toordinal now - weekday now"
    "hour ws = 0" "minute ws = 0" "second ws = 0" "microsecond ws = 0"
    "valid_datetime ws" "weekday ws = 0"
    by metis
  have lo: "1 \<le> toordinal ws + w"
    using valid_toordinal(1) [OF ws(8)] w by simp
  have hi: "toordinal ws + w \<le> MAXORDINAL"
    using range by (simp add: ws(3) w_def)
  from datetime_add_no_carry [OF ws(8), of "\<lparr>days = w, seconds = hs, microseconds = 0\<rparr>"]
    hs lo hi ws(4-7)
  obtain r where r: "datetime_add ws \<lparr>days = w, seconds = hs, microseconds = 0\<rparr> = Inr r"
    "toordinal r = toordinal ws + w" "hour r = hs div 3600" "minute r = hs mod 3600 div 60"
    "second r = hs mod 3600 mod 60" "valid_datetime r"
    by auto
  have res: "week_seconds_to_datetime now n = Inr r"
    using ws(1) td r(1) by (simp add: week_seconds_to_datetime_def)
  have "(toordinal ws + 6) mod 7 = 0"
    using ws(9) by (simp add: weekday_def)
  then have m: "(toordinal ws + 6 + w) mod 7 = w mod 7"
    by (metis add_0 mod_add_left_eq)
  have e: "toordinal r + 6 = toordinal ws + 6 + w"
    by (simp add: r(2))
  have "weekday r = (toordinal ws + 6 + w) mod 7"
    unfolding weekday_def e ..
  also have "\<dots> = w mod 7"
    by (fact m)
  also have "\<dots> = w"
    using w by simp
  finally have wr: "weekday r = w" .
  from week_start_result [OF r(6)] obtain ws' where ws': "week_start r = Inr ws'"
    "datetime_fromordinal (toordinal r - weekday r) = Inr ws'"
    by metis
  have "ws' = ws"
    using ws'(2) ws(2) by (simp add: wr r(2) ws(3))
  then show ?thesis
    using n res ws(1) ws'(1) wr r(3-5) tod(3-5)
    by (intro exI [of _ n] exI [of _ r] exI [of _ ws]) (simp add: w_def hs_def)
qed

theorem week_seconds_to_datetime_current_week_witness:
  "valid_datetime thursday \<and> tzinfo thursday = None \<and> valid_datetime mayday
   \<and> toordinal mayday - weekday mayday + weekday thursday \<le> MAXORDINAL
   \<and> (\<exists>n r ws. week_seconds thursday = Inr n \<and> week_seconds_to_datetime mayday n = Inr r
           \<and> week_start mayday = Inr ws \<and> week_start r = Inr ws
           \<and> weekday r = weekday thursday \<and> hour r = hour thursday
           \<and> minute r = minute thursday \<and> second r = second thursday)"
proof -
  have a: "valid_datetime mayday"
    by (simp add: valid_datetime_def mayday_def days_in_month_def days_in_month_table_def)
  have b: "toordinal mayday - weekday mayday + weekday thursday \<le> MAXORDINAL"
    by code_simp
  from week_seconds_to_datetime_current_week [OF valid_thursday(1) thursday_fields(3) a b]
  show ?thesis
    using valid_thursday(1) thursday_fields(3) a b by simp
qed

text \<open>The claim as written fails when \<open>t\<close> is not in the current week: for Thursday
  2024-03-14 13:05:09 and the clock at 2024-05-01, the result is Thursday 2024-05-02
  13:05:09, in the week of 2024-04-29, while the week of \<open>t\<close> starts on 2024-03-11.\<close>

theorem week_seconds_to_datetime_other_week_counterexample:
  "week_seconds thursday = Inr 306309
   \<and> week_seconds_to_datetime mayday 306309 =
       Inr \<lparr>year = 2024, month = 5, day = 2, hour = 13, minute = 5, second = 9,
            microsecond = 0, tzinfo = None\<rparr>
   \<and> week_start \<lparr>year = 2024, month = 5, day = 2, hour = 13, minute = 5, second = 9,
            microsecond = 0, tzinfo = None\<rparr> =
       Inr \<lparr>year = 2024, month = 4, day = 29, hour = 0, minute = 0, second = 0,
            microsecond = 0, tzinfo = None\<rparr>
   \<and> week_start thursday =
       Inr \<lparr>year = 2024, month = 3, day = 11, hour = 0, minute = 0, second = 0,
            microsecond = 0, tzinfo = None\<rparr>"
  by code_simp

text \<open>
  C2. For every timezone-aware datetime \<open>d\<close>, \<open>fromutctimestamp (toutctimestamp d)\<close>
  reproduces \<open>d\<close>. The code does not: for 1969-12-31 23:59:59.5 UTC the timestamp is
  \<open>-0.5\<close>; \<^verbatim>\<open>int(stamp)\<close> truncates it to 0, so the microseconds come out as \<open>-500000\<close>
  (and \<^verbatim>\<open>time.gmtime\<close> gives 1970-01-01 00:00:00), and the datetime constructor raises
  \<^verbatim>\<open>ValueError\<close>. All the floats involved are exact.
\<close>

theorem utc_round_trip_before_epoch_raises:
  "valid_datetime new_years_eve
   \<and> toutctimestamp mktime new_years_eve = Inr (- 1 / 2)
   \<and> gmtime (- 1 / 2) = Inr (1970, 1, 1, 0, 0, 0, 0)
   \<and> fromutctimestamp (- 1 / 2) = Inl ValueError"
  by code_simp

text \<open>The example of the specification.\<close>

lemma toutctimestamp_example: "toutctimestamp mktime new_year_2020 = Inr 1577836800"
  by code_simp

end
